theory Spec2Isabelle
  imports Main "HOL-Library.Word" "HOL-Library.Signed_Division"
begin

section \<open>The LED clock driver (ClockDriver.ino) as HOL functions\<close>

text \<open>
  The sketch keeps its whole state in global variables and drives a strip of
  \<open>NUM_LEDS\<close> RGBW pixels. Every function of the sketch becomes a function from
  the globals to the globals. An array access outside its array is undefined behaviour
  in C++; the model makes it a value of type \<open>fault\<close>, so that every theorem that
  says a call returns a state also says that all its array accesses were in bounds.
  C \<open>int\<close> parameters are HOL integers (the conversions to \<open>unsigned\<close> and to
  \<open>uint8_t\<close> are written out where the source performs them); \<open>uint8_t\<close>
  globals are 8-bit words.

  ClockDriver.ino holds two versions of the sketch. The model follows the first, which
  has the trackers \<open>oldHour\<close> and \<open>oldMinute\<close> and the MQTT handlers; the two tables,
  \<open>setClockSegment\<close>, \<open>controlPixel\<close> and \<open>colorFill\<close> are the same in both.
\<close>

subsection \<open>Colours\<close>

datatype CRGB = CRGB "8 word" "8 word" "8 word"

datatype CRGBW = CRGBW "8 word" "8 word" "8 word" "8 word"

text \<open>\<open>CRGB::White\<close> is 0xFFFFFF and \<open>CRGB::Black\<close> is 0x000000 in FastLED.\<close>

definition White :: CRGB where
  "White = CRGB 255 255 255"

definition Black :: CRGB where
  "Black = CRGB 0 0 0"

text \<open>
  Modelled from the spec: the header FastLED_RGBW.h, which declares \<open>CRGBW\<close> and its
  assignment from a \<open>CRGB\<close>, is not among the sources. The spec's colour "off" has all
  channels zero, so the assignment \<open>leds[i] = color\<close> copies the three colour channels
  and clears the white channel.
\<close>

fun CRGBW_of_CRGB :: "CRGB \<Rightarrow> CRGBW" where
  "CRGBW_of_CRGB (CRGB r g b) = CRGBW r g b 0"

subsection \<open>Globals\<close>

definition NUM_LEDS :: nat where
  "NUM_LEDS = 214"

text \<open>
  The fields \<open>showCount\<close>, \<open>FastLED_brightness\<close> and \<open>rendered\<close> record what the source
  does to the outside: the number of \<open>FastLED.show()\<close> calls so far, the value last
  passed to \<open>FastLED.setBrightness\<close>, and the arguments of the \<open>setClockSegment\<close>
  calls so far, oldest first. The field \<open>trackerWrites\<close> records every assignment to
  \<open>oldMinute\<close> or \<open>oldHour\<close>, oldest first, each with the values that \<open>rendered\<close> and
  \<open>showCount\<close> had at the moment of the assignment: it tells what had been rendered and
  pushed to the strip before the tracker was written.
\<close>

datatype tracker = OldMinute | OldHour

record state =
  leds :: "CRGBW list"
  brightness :: "8 word"
  oldBrightness :: "8 word"
  oldHour :: "8 word"
  oldMinute :: "8 word"
  masterState :: bool
  FastLED_brightness :: "8 word"
  showCount :: nat
  rendered :: "(int \<times> int) list"
  trackerWrites :: "(tracker \<times> (int \<times> int) list \<times> nat) list"

datatype fault = ReadOutside string | WriteOutside string

text \<open>The globals as the C++ runtime initialises them, before \<open>setup()\<close> runs.\<close>

definition boot :: state where
  "boot = \<lparr> leds = replicate NUM_LEDS (CRGBW 0 0 0 0), brightness = 128, oldBrightness = 100,
            oldHour = 0, oldMinute = 0, masterState = True, FastLED_brightness = 255,
            showCount = 0, rendered = [], trackerWrites = [] \<rparr>"

subsection \<open>The tables\<close>

text \<open>
  \<open>const int numberMap[10][50]\<close>: the initialisers of the ten rows. The rows are shorter
  than 50; C++ fills the rest of each row with zeros, which \<open>numberMap_at\<close> does.
\<close>

definition numberMap :: "int list list" where
  "numberMap =
    [[0, 1, 2, 3, 4, 5, 6, 7, 8, 9, 10, 11, 12, 13, 14, 15, 16, 17, 18, 19, 25, 26, 27, 28, 29, 30, 31, 32, 33, 34],
     [0, 1, 2, 3, 4, 5, 6, 7, 8, 9],
     [5, 6, 7, 8, 9, 10, 11, 12, 13, 14, 20, 21, 22, 23, 24, 25, 26, 27, 28, 29, 30, 31, 32, 33, 34],
     [0, 1, 2, 3, 4, 5, 6, 7, 8, 9, 10, 11, 12, 13, 14, 20, 21, 22, 23, 24, 30, 31, 32, 33, 34],
     [0, 1, 2, 3, 4, 5, 6, 7, 8, 9, 15, 16, 17, 18, 19, 20, 21, 22, 23, 24],
     [0, 1, 2, 3, 4, 10, 11, 12, 13, 14, 15, 16, 17, 18, 19, 20, 21, 22, 23, 24, 30, 31, 32, 33, 34],
     [0, 1, 2, 3, 4, 10, 11, 12, 13, 14, 15, 16, 17, 18, 19, 20, 21, 22, 23, 24, 25, 26, 27, 28, 29, 30, 31, 32, 33, 34],
     [0, 1, 2, 3, 4, 5, 6, 7, 8, 9, 10, 11, 12, 13, 14],
     [0, 1, 2, 3, 4, 5, 6, 7, 8, 9, 10, 11, 12, 13, 14, 15, 16, 17, 18, 19, 20, 21, 22, 23, 24, 25, 26, 27, 28, 29, 30, 31],
     [0, 1, 2, 3, 4, 5, 6, 7, 8, 9, 10, 11, 12, 13, 14, 15, 16, 17, 18, 19, 20, 21, 22, 23, 24]]"

definition numberMap_at :: "int \<Rightarrow> int \<Rightarrow> fault + int" where
  "numberMap_at time k =
     (if 0 \<le> time \<and> time < 10 \<and> 0 \<le> k \<and> k < 50
      then Inr (let row = numberMap ! nat time in if nat k < length row then row ! nat k else 0)
      else Inl (ReadOutside ''numberMap''))"

text \<open>\<open>uint8_t digitMap[] = {0, 35, 70, 105, 140, 175, 210}\<close>: seven entries.\<close>

definition digitMap :: "8 word list" where
  "digitMap = [0, 35, 70, 105, 140, 175, 210]"

definition digitMap_at :: "int \<Rightarrow> fault + nat" where
  "digitMap_at i =
     (if 0 \<le> i \<and> i < int (length digitMap) then Inr (unat (digitMap ! nat i))
      else Inl (ReadOutside ''digitMap''))"

subsection \<open>Writing one pixel\<close>

text \<open>Both branches of \<open>controlPixel\<close> store the pixel and then call \<open>FastLED.show()\<close>.\<close>

definition controlPixel :: "int \<Rightarrow> CRGB \<Rightarrow> state \<Rightarrow> fault + state" where
  "controlPixel pixelNumber color s =
     (if 0 \<le> pixelNumber \<and> pixelNumber < int NUM_LEDS
      then (if color = White
            then Inr (s\<lparr> leds := (leds s)[nat pixelNumber := CRGBW 0 0 0 255],
                        showCount := showCount s + 1 \<rparr>)
            else Inr (s\<lparr> leds := (leds s)[nat pixelNumber := CRGBW_of_CRGB color],
                        showCount := showCount s + 1 \<rparr>))
      else Inl (WriteOutside ''leds''))"

subsection \<open>Rendering one digit\<close>

text \<open>
  The \<open>for\<close> loop of \<open>setClockSegment\<close>: \<open>a\<close> is the pixel index, \<open>arrayTracker\<close> the
  cursor into the row of \<open>numberMap\<close>, \<open>arrayOffset\<close> the offset of the pixel within the
  digit. The loop test reads \<open>digitMap[segment + 1]\<close> every time round.
\<close>

function pixelLoop :: "int \<Rightarrow> int \<Rightarrow> nat \<Rightarrow> nat \<Rightarrow> nat \<Rightarrow> state \<Rightarrow> fault + state" where
  "pixelLoop segment time a arrayTracker arrayOffset s =
     (case digitMap_at (segment + 1) of
        Inl e \<Rightarrow> Inl e
      | Inr hi \<Rightarrow>
          if a < hi then
            (case numberMap_at time (int arrayTracker) of
               Inl e \<Rightarrow> Inl e
             | Inr x \<Rightarrow>
                 if x = int arrayOffset then
                   (case controlPixel (int a) White s of
                      Inl e \<Rightarrow> Inl e
                    | Inr s' \<Rightarrow> pixelLoop segment time (a + 1) (arrayTracker + 1) (arrayOffset + 1) s')
                 else
                   (case controlPixel (int a) Black s of
                      Inl e \<Rightarrow> Inl e
                    | Inr s' \<Rightarrow> pixelLoop segment time (a + 1) arrayTracker (arrayOffset + 1) s'))
          else Inr s)"
  by pat_completeness auto
termination
  by (relation "measure (\<lambda>(segment, time, a, arrayTracker, arrayOffset, s).
        (case digitMap_at (segment + 1) of Inl e \<Rightarrow> 0 | Inr hi \<Rightarrow> hi - a))") auto

definition setClockSegment :: "int \<Rightarrow> int \<Rightarrow> state \<Rightarrow> fault + state" where
  "setClockSegment segment time s =
     (case digitMap_at segment of
        Inl e \<Rightarrow> Inl e
      | Inr lo \<Rightarrow> pixelLoop segment time lo 0 0 (s\<lparr> rendered := rendered s @ [(segment, time)] \<rparr>))"

subsection \<open>Rendering the time\<close>

text \<open>
  \<open>value % 10\<close> on a C \<open>int\<close> truncates towards zero (\<open>smod\<close>). In
  \<open>(value / 10U) % 10\<close> the \<open>int\<close> is first converted to \<open>unsigned\<close>, 32 bits
  wide on the ESP8266, and the division and the remainder are unsigned.
\<close>

definition unitsDigit :: "int \<Rightarrow> int" where
  "unitsDigit v = v smod 10"

definition tensDigit :: "int \<Rightarrow> int" where
  "tensDigit v = ((v mod 2 ^ 32) div 10) mod 10"

text \<open>\<open>delay(ms)\<close> only waits.\<close>

definition delay :: "int \<Rightarrow> state \<Rightarrow> fault + state" where
  "delay ms s = Inr s"

text \<open>A sequence of statements; a fault ends it.\<close>

fun block :: "(state \<Rightarrow> fault + state) list \<Rightarrow> state \<Rightarrow> fault + state" where
  "block [] s = Inr s"
| "block (c # cs) s = (case c s of Inl e \<Rightarrow> Inl e | Inr s' \<Rightarrow> block cs s')"

text \<open>
  The comparison \<open>oldMinute == minute\<close> promotes the \<open>uint8_t\<close> to \<open>int\<close>; the
  assignment \<open>oldMinute = minute\<close> keeps the low eight bits.
\<close>

definition set_oldMinute :: "int \<Rightarrow> state \<Rightarrow> fault + state" where
  "set_oldMinute minute s =
     Inr (s\<lparr> oldMinute := word_of_int minute,
             trackerWrites := trackerWrites s @ [(OldMinute, rendered s, showCount s)] \<rparr>)"

definition set_oldHour :: "int \<Rightarrow> state \<Rightarrow> fault + state" where
  "set_oldHour hour s =
     Inr (s\<lparr> oldHour := word_of_int hour,
             trackerWrites := trackerWrites s @ [(OldHour, rendered s, showCount s)] \<rparr>)"

definition setClockTime :: "int \<Rightarrow> int \<Rightarrow> int \<Rightarrow> state \<Rightarrow> fault + state" where
  "setClockTime hour minute second s =
     (if uint (oldMinute s) = minute then
        block [setClockSegment 0 (unitsDigit second),
               setClockSegment 1 (tensDigit second)] s
      else if uint (oldHour s) = hour then
        block [setClockSegment 0 (unitsDigit second),
               setClockSegment 1 (tensDigit second),
               delay 10,
               setClockSegment 2 (unitsDigit minute),
               setClockSegment 3 (tensDigit minute),
               set_oldMinute minute] s
      else
        block [setClockSegment 0 (unitsDigit second),
               setClockSegment 1 (tensDigit second),
               delay 10,
               setClockSegment 2 (unitsDigit minute),
               setClockSegment 3 (tensDigit minute),
               delay 10,
               setClockSegment 4 (unitsDigit hour),
               setClockSegment 5 (tensDigit hour),
               set_oldMinute minute,
               set_oldHour hour] s)"

subsection \<open>Start-up\<close>

function colorFillLoop :: "CRGB \<Rightarrow> int \<Rightarrow> nat \<Rightarrow> state \<Rightarrow> state" where
  "colorFillLoop c speed i s =
     (if i < NUM_LEDS then
        colorFillLoop c speed (i + 1)
          (if c = White
           then s\<lparr> leds := (leds s)[i := CRGBW 0 0 0 255], showCount := showCount s + 1 \<rparr>
           else s\<lparr> leds := (leds s)[i := CRGBW_of_CRGB c], showCount := showCount s + 1 \<rparr>)
      else s)"
  by pat_completeness auto
termination
  by (relation "measure (\<lambda>(c, speed, i, s). NUM_LEDS - i)") auto

definition colorFill :: "CRGB \<Rightarrow> int \<Rightarrow> state \<Rightarrow> fault + state" where
  "colorFill c speed s = Inr (colorFillLoop c speed 0 s)"

definition pixelTest :: "state \<Rightarrow> fault + state" where
  "pixelTest =
     block [delay 100, setClockTime 0 0 0,
            delay 100, setClockTime 11 11 11,
            delay 100, setClockTime 22 22 22,
            delay 100, setClockTime 33 33 33,
            delay 100, setClockTime 44 44 44,
            delay 100, setClockTime 55 55 55,
            delay 100, setClockTime 66 66 66,
            delay 100, setClockTime 77 77 77,
            delay 100, setClockTime 88 88 88,
            delay 100, setClockTime 99 99 99,
            delay 100, colorFill Black 1]"

subsection \<open>Remote control\<close>

text \<open>
  \<open>callback\<close> first copies the \<open>length\<close> bytes of the payload into
  \<open>char buffer[length]\<close> and builds \<open>String(buffer)\<close>. The buffer has no room for a
  terminating NUL and none is stored, so the \<open>String\<close> constructor, which scans for the
  first NUL, stays inside the buffer only if the payload itself contains a NUL byte;
  otherwise it reads past the end of the buffer. \<open>payload\<close> is the list of the
  \<open>length\<close> bytes received.
\<close>

definition String_of_buffer :: "char list \<Rightarrow> fault + string" where
  "String_of_buffer buffer =
     (if CHR 0x00 \<in> set buffer then Inr (takeWhile (\<lambda>c. c \<noteq> CHR 0x00) buffer)
      else Inl (ReadOutside ''buffer''))"

text \<open>
  The two handlers follow. \<open>toInt\<close> stands for \<open>String::toInt\<close> of the Arduino core,
  which is not part of the sketch; its result is stored in a \<open>uint8_t\<close>. Each handler
  ends with \<open>FastLED.setBrightness(brightness)\<close> and \<open>FastLED.show()\<close>.
\<close>

definition callback :: "(string \<Rightarrow> int) \<Rightarrow> string \<Rightarrow> char list \<Rightarrow> state \<Rightarrow> fault + state" where
  "callback toInt topic payload s =
     (case String_of_buffer payload of
        Inl e \<Rightarrow> Inl e
      | Inr message \<Rightarrow>
          (let s1 = (if topic = ''LEDClock/Brightness''
                     then s\<lparr> brightness := word_of_int (toInt message),
                             oldBrightness := word_of_int (toInt message),
                             FastLED_brightness := word_of_int (toInt message),
                             showCount := showCount s + 1 \<rparr>
                     else s)
           in if topic = ''LEDClock/State''
              then (if message = ''true''
                    then Inr (s1\<lparr> brightness := oldBrightness s1,
                                   FastLED_brightness := oldBrightness s1,
                                   showCount := showCount s1 + 1,
                                   masterState := True \<rparr>)
                    else Inr (s1\<lparr> oldBrightness := brightness s1,
                                   brightness := 0,
                                   FastLED_brightness := 0,
                                   showCount := showCount s1 + 1,
                                   masterState := False \<rparr>))
              else Inr s1))"

subsection \<open>The earlier sketch for the real-time clock\<close>

text \<open>
  The second sketch of the repository parses the time into six local variables and then
  calls \<open>setClockSegment\<close> on each. Its \<open>digitMap\<close> still has placeholders for two
  entries, so its pixels cannot be computed; \<open>setClockTime_rtc\<close> is the parse and the
  list of the calls it makes, in order, as (segment, digit). The sketch writes the type
  of its integers as \<open>Integer\<close>, which it does not declare; they are taken to be the
  \<open>int\<close> of the main sketch.
\<close>

definition setClockTime_rtc :: "int \<Rightarrow> int \<Rightarrow> int \<Rightarrow> (int \<times> int) list" where
  "setClockTime_rtc hour minute second =
     (let secondRight = unitsDigit second;
          secondLeft = tensDigit second;
          minuteRight = unitsDigit second;
          minuteLeft = tensDigit second;
          hourRight = unitsDigit second;
          hourLeft = tensDigit second
      in [(0, secondRight), (1, secondLeft), (2, minuteRight), (3, minuteLeft),
          (4, hourRight), (5, hourLeft)])"

subsection \<open>What the spec asks of the renderer and of the decomposer\<close>

text \<open>
  The spec's \<open>renderDigit\<close>: every pixel of the digit's range is on exactly if its offset
  from the start of the range is one of the lit offsets of the value; the other pixels of
  the strip are left alone.
\<close>

definition renderDigit :: "int \<Rightarrow> int \<Rightarrow> CRGBW list \<Rightarrow> CRGBW list" where
  "renderDigit position v L =
     (let start = unat (digitMap ! nat position); stop = unat (digitMap ! nat (position + 1))
      in map (\<lambda>i. if start \<le> i \<and> i < stop
                   then (if int (i - start) \<in> set (numberMap ! nat v)
                         then CRGBW 0 0 0 255 else CRGBW 0 0 0 0)
                   else L ! i) [0..<length L])"

text \<open>The spec's \<open>decompose\<close>: the digit of each of the six positions, position 0 first.\<close>

definition decompose :: "int \<Rightarrow> int \<Rightarrow> int \<Rightarrow> int list" where
  "decompose hour minute second =
     [second mod 10, (second div 10) mod 10, minute mod 10, (minute div 10) mod 10,
      hour mod 10, (hour div 10) mod 10]"

definition glyph :: "int list \<Rightarrow> nat \<Rightarrow> CRGBW" where
  "glyph rest off = (if int off \<in> set rest then CRGBW 0 0 0 255 else CRGBW 0 0 0 0)"

section \<open>The tables are well formed\<close>

lemma numberMap_rows:
  "\<forall>row \<in> set numberMap. sorted_wrt (<) row \<and> row \<noteq> [] \<and> (\<forall>x \<in> set row. 0 \<le> x \<and> x < 35)"
  by (simp add: numberMap_def)

lemma length_numberMap: "length numberMap = 10"
  by (simp add: numberMap_def)

lemma numberMap_row:
  assumes "0 \<le> v" "v \<le> 9"
  shows "sorted_wrt (<) (numberMap ! nat v)" and "numberMap ! nat v \<noteq> []"
    and "\<forall>x \<in> set (numberMap ! nat v). 0 \<le> x \<and> x < 35"
proof -
  from assms have "nat v < length numberMap" by (simp add: length_numberMap)
  then have "numberMap ! nat v \<in> set numberMap" by (rule nth_mem)
  with numberMap_rows show "sorted_wrt (<) (numberMap ! nat v)" and "numberMap ! nat v \<noteq> []"
    and "\<forall>x \<in> set (numberMap ! nat v). 0 \<le> x \<and> x < 35" by blast+
qed

lemma numberMap_at_row:
  assumes "0 \<le> time" "time < 10" "j < 50"
  shows "numberMap_at time (int j) =
           Inr (if j < length (numberMap ! nat time) then numberMap ! nat time ! j else 0)"
  using assms by (simp add: numberMap_at_def Let_def)

lemma digitMap_at_segment:
  assumes "0 \<le> p" "p \<le> 5"
  shows "digitMap_at p = Inr (35 * nat p)" and "digitMap_at (p + 1) = Inr (35 * nat p + 35)"
proof -
  from assms have "p = 0 \<or> p = 1 \<or> p = 2 \<or> p = 3 \<or> p = 4 \<or> p = 5" by arith
  then show "digitMap_at p = Inr (35 * nat p)"
    by (auto simp: digitMap_at_def digitMap_def)
  from assms have "p = 0 \<or> p = 1 \<or> p = 2 \<or> p = 3 \<or> p = 4 \<or> p = 5" by arith
  then show "digitMap_at (p + 1) = Inr (35 * nat p + 35)"
    by (auto simp: digitMap_at_def digitMap_def)
qed

lemma digitMap_nth:
  assumes "0 \<le> p" "p \<le> 5"
  shows "unat (digitMap ! nat p) = 35 * nat p" and "unat (digitMap ! nat (p + 1)) = 35 * nat p + 35"
  using digitMap_at_segment [OF assms] assms by (simp_all add: digitMap_at_def digitMap_def)

section \<open>The pixel loop\<close>

declare pixelLoop.simps [simp del]

lemma controlPixel_White:
  "a < NUM_LEDS \<Longrightarrow> controlPixel (int a) White s =
     Inr (s\<lparr> leds := (leds s)[a := CRGBW 0 0 0 255], showCount := showCount s + 1 \<rparr>)"
  by (simp add: controlPixel_def)

lemma controlPixel_Black:
  "a < NUM_LEDS \<Longrightarrow> controlPixel (int a) Black s =
     Inr (s\<lparr> leds := (leds s)[a := CRGBW 0 0 0 0], showCount := showCount s + 1 \<rparr>)"
  by (simp add: controlPixel_def Black_def White_def)

lemma sorted_wrt_drop_gt:
  assumes "sorted_wrt (<) (row :: int list)" "k < length row" "x \<in> set (drop (Suc k) row)"
  shows "row ! k < x"
proof -
  from assms(3) obtain j where j: "j < length (drop (Suc k) row)" "x = drop (Suc k) row ! j"
    by (auto simp: in_set_conv_nth)
  then have "x = row ! (Suc k + j)" "Suc k + j < length row" by auto
  with assms(1) show ?thesis by (simp add: sorted_wrt_iff_nth_less)
qed

lemma pixelLoop_spec:
  assumes hi: "digitMap_at (segment + 1) = Inr hi" "hi \<le> NUM_LEDS"
    and t: "0 \<le> time" "time < 10"
    and row: "row = numberMap ! nat time" "sorted_wrt (<) row"
  shows "n = hi - a \<Longrightarrow> hi \<le> length (leds s) \<Longrightarrow> k \<le> off \<Longrightarrow> off + n \<le> 50 \<Longrightarrow>
         \<forall>x \<in> set (drop k row). int off \<le> x \<Longrightarrow> k < length row \<or> 0 < off \<Longrightarrow>
         \<exists>L. pixelLoop segment time a k off s = Inr (s\<lparr> leds := L, showCount := showCount s + n \<rparr>)
            \<and> length L = length (leds s)
            \<and> (\<forall>i < length L. L ! i =
                  (if a \<le> i \<and> i < hi then glyph (drop k row) (i - a + off) else leds s ! i))"
proof (induction n arbitrary: a k off s)
  case 0
  then have "\<not> a < hi" by simp
  then have "pixelLoop segment time a k off s = Inr s"
    by (simp add: pixelLoop.simps [of segment time a k off s] hi)
  then show ?case using \<open>\<not> a < hi\<close> by (intro exI [of _ "leds s"]) auto
next
  case (Suc n)
  then have a: "a < hi" "a < NUM_LEDS" "a < length (leds s)" using hi(2) by simp_all
  from Suc.prems a have k50: "k < 50" by simp
  let ?x = "if k < length row then row ! k else 0"
  have look: "numberMap_at time (int k) = Inr ?x"
    using numberMap_at_row [OF t k50] row(1) by simp
  show ?case
  proof (cases "?x = int off")
    case True
    with Suc.prems have kl: "k < length row" by (auto split: if_splits)
    with True have rk: "row ! k = int off" by simp
    have dk: "drop k row = int off # drop (Suc k) row"
      using kl rk by (simp add: Cons_nth_drop_Suc [symmetric])
    let ?s1 = "s\<lparr> leds := (leds s)[a := CRGBW 0 0 0 255], showCount := showCount s + 1 \<rparr>"
    have step: "pixelLoop segment time a k off s = pixelLoop segment time (a + 1) (k + 1) (off + 1) ?s1"
      using a True look by (simp add: pixelLoop.simps [of segment time a k off s] hi controlPixel_White)
    have inv': "\<forall>x \<in> set (drop (Suc k) row). int (Suc off) \<le> x"
      using sorted_wrt_drop_gt [OF row(2) kl] rk by fastforce
    have p1: "n = hi - Suc a" and p2: "hi \<le> length (leds ?s1)" and p3: "Suc k \<le> Suc off"
      and p4: "Suc off + n \<le> 50" and p6: "Suc k < length row \<or> 0 < Suc off"
      using Suc.prems by simp_all
    from Suc.IH [OF p1 p2 p3 p4 inv' p6]
    obtain L where L: "pixelLoop segment time (Suc a) (Suc k) (Suc off) ?s1
          = Inr (?s1\<lparr> leds := L, showCount := showCount ?s1 + n \<rparr>)"
        "length L = length (leds ?s1)"
        "\<forall>i < length L. L ! i =
            (if Suc a \<le> i \<and> i < hi then glyph (drop (Suc k) row) (i - Suc a + Suc off) else leds ?s1 ! i)"
      by blast
    have "\<forall>i < length L. L ! i = (if a \<le> i \<and> i < hi then glyph (drop k row) (i - a + off) else leds s ! i)"
    proof (intro allI impI)
      fix i assume i: "i < length L"
      show "L ! i = (if a \<le> i \<and> i < hi then glyph (drop k row) (i - a + off) else leds s ! i)"
      proof (cases "i = a")
        case True
        then show ?thesis using L(3) i a L(2) by (simp add: glyph_def dk)
      next
        case False
        then show ?thesis using L(3) i a L(2) by (auto simp: glyph_def dk Suc_diff_Suc)
      qed
    qed
    with L(1,2) step show ?thesis
      by (intro exI [of _ L]) simp
  next
    case False
    let ?s1 = "s\<lparr> leds := (leds s)[a := CRGBW 0 0 0 0], showCount := showCount s + 1 \<rparr>"
    have step: "pixelLoop segment time a k off s = pixelLoop segment time (a + 1) k (off + 1) ?s1"
      using a False look by (simp add: pixelLoop.simps [of segment time a k off s] hi controlPixel_Black)
    have notin: "int off \<notin> set (drop k row)"
    proof
      assume m: "int off \<in> set (drop k row)"
      then have kl: "k < length row" by (cases "k < length row") auto
      with False have "row ! k \<noteq> int off" by simp
      moreover have "drop k row = row ! k # drop (Suc k) row"
        using kl by (simp add: Cons_nth_drop_Suc)
      ultimately have "int off \<in> set (drop (Suc k) row)" using m by auto
      from sorted_wrt_drop_gt [OF row(2) kl this] have "row ! k < int off" .
      moreover have "row ! k \<in> set (drop k row)"
        using kl by (metis Cons_nth_drop_Suc list.set_intros(1))
      ultimately show False using Suc.prems by fastforce
    qed
    have inv': "\<forall>x \<in> set (drop k row). int (Suc off) \<le> x"
    proof
      fix x assume x: "x \<in> set (drop k row)"
      with Suc.prems have "int off \<le> x" by blast
      moreover from x notin have "x \<noteq> int off" by blast
      ultimately show "int (Suc off) \<le> x" by simp
    qed
    have p1: "n = hi - Suc a" and p2: "hi \<le> length (leds ?s1)" and p3: "k \<le> Suc off"
      and p4: "Suc off + n \<le> 50" and p6: "k < length row \<or> 0 < Suc off"
      using Suc.prems by simp_all
    from Suc.IH [OF p1 p2 p3 p4 inv' p6]
    obtain L where L: "pixelLoop segment time (Suc a) k (Suc off) ?s1
          = Inr (?s1\<lparr> leds := L, showCount := showCount ?s1 + n \<rparr>)"
        "length L = length (leds ?s1)"
        "\<forall>i < length L. L ! i =
            (if Suc a \<le> i \<and> i < hi then glyph (drop k row) (i - Suc a + Suc off) else leds ?s1 ! i)"
      by blast
    have "\<forall>i < length L. L ! i = (if a \<le> i \<and> i < hi then glyph (drop k row) (i - a + off) else leds s ! i)"
    proof (intro allI impI)
      fix i assume i: "i < length L"
      show "L ! i = (if a \<le> i \<and> i < hi then glyph (drop k row) (i - a + off) else leds s ! i)"
      proof (cases "i = a")
        case True
        then show ?thesis using L(3) i a L(2) notin by (simp add: glyph_def)
      next
        case False
        then show ?thesis using L(3) i a L(2) by (auto simp: Suc_diff_Suc)
      qed
    qed
    with L(1,2) step show ?thesis
      by (intro exI [of _ L]) simp
  qed
qed

section \<open>One digit\<close>

text \<open>\<open>setClockSegment\<close> does to the buffer what the spec's \<open>renderDigit\<close> says.\<close>

lemma length_renderDigit [simp]: "length (renderDigit p v L) = length L"
  by (simp add: renderDigit_def Let_def)

lemma setClockSegment_eq:
  assumes p: "0 \<le> p" "p \<le> 5" and v: "0 \<le> v" "v \<le> 9" and len: "length (leds s) = NUM_LEDS"
  shows "setClockSegment p v s =
           Inr (s\<lparr> leds := renderDigit p v (leds s), showCount := showCount s + 35,
                    rendered := rendered s @ [(p, v)] \<rparr>)"
proof -
  let ?lo = "35 * nat p" and ?hi = "35 * nat p + 35"
  let ?row = "numberMap ! nat v"
  let ?s0 = "s\<lparr> rendered := rendered s @ [(p, v)] \<rparr>"
  have hi: "digitMap_at (p + 1) = Inr ?hi" and lo: "digitMap_at p = Inr ?lo"
    using digitMap_at_segment [OF p] by simp_all
  have hiN: "?hi \<le> NUM_LEDS" using p by (simp add: NUM_LEDS_def)
  have v10: "v < 10" using v by simp
  have inv: "\<forall>x \<in> set (drop 0 ?row). int 0 \<le> x" using numberMap_row(3) [OF v] by simp
  have pad: "0 < length ?row \<or> 0 < (0::nat)" using numberMap_row(2) [OF v] by simp
  have n: "35 = ?hi - ?lo" by simp
  have len0: "?hi \<le> length (leds ?s0)" using hiN len by simp
  from pixelLoop_spec [OF hi hiN v(1) v10 refl numberMap_row(1) [OF v] n len0 le_refl _ inv pad]
  obtain L where L: "pixelLoop p v ?lo 0 0 ?s0 = Inr (?s0\<lparr> leds := L, showCount := showCount ?s0 + 35 \<rparr>)"
    "length L = length (leds ?s0)"
    "\<forall>i < length L. L ! i = (if ?lo \<le> i \<and> i < ?hi then glyph (drop 0 ?row) (i - ?lo + 0) else leds ?s0 ! i)"
    by auto
  have "L = renderDigit p v (leds s)"
  proof (rule nth_equalityI)
    show "length L = length (renderDigit p v (leds s))" using L(2) by simp
  next
    fix i assume "i < length L"
    then show "L ! i = renderDigit p v (leds s) ! i"
      using L(2,3) by (simp add: renderDigit_def Let_def digitMap_nth [OF p] glyph_def)
  qed
  with L(1) lo show ?thesis by (simp add: setClockSegment_def)
qed

lemma renderDigit_nth:
  assumes "0 \<le> p" "p \<le> 5" "i < length L"
  shows "renderDigit p v L ! i =
           (if 35 * nat p \<le> i \<and> i < 35 * nat p + 35
            then glyph (numberMap ! nat v) (i - 35 * nat p) else L ! i)"
  using assms by (simp add: renderDigit_def Let_def digitMap_nth glyph_def)

lemma renderDigit_idem:
  assumes "0 \<le> p" "p \<le> 5"
  shows "renderDigit p v (renderDigit p v L) = renderDigit p v L"
  by (rule nth_equalityI) (simp_all add: renderDigit_nth [OF assms])


text \<open>
  C1: for every digit position 0-5 and every digit value 0-9, \<open>setClockSegment\<close> returns,
  and afterwards every pixel \<open>i\<close> of the range from \<open>digitMap[position]\<close> up to, not
  including, \<open>digitMap[position + 1]\<close> is white, \<open>CRGBW(0, 0, 0, 255)\<close>, if its offset
  \<open>i - digitMap[position]\<close> is listed in the row \<open>numberMap[value]\<close>, and black otherwise.
  The row is strictly increasing, which is what the cursor scan of the loop relies on
  (lemma \<open>pixelLoop_spec\<close>). The row is the list of the initialisers: the zeros that pad
  it to 50 entries are never matched.
\<close>

theorem setClockSegment_lights_glyph:
  assumes "0 \<le> position" "position \<le> 5" "0 \<le> v" "v \<le> 9" "length (leds s) = NUM_LEDS"
  shows "\<exists>s'. setClockSegment position v s = Inr s'
           \<and> sorted_wrt (<) (numberMap ! nat v)
           \<and> (\<forall>i. unat (digitMap ! nat position) \<le> i \<and> i < unat (digitMap ! nat (position + 1)) \<longrightarrow>
                  leds s' ! i = (if int (i - unat (digitMap ! nat position)) \<in> set (numberMap ! nat v)
                                 then CRGBW 0 0 0 255 else CRGBW 0 0 0 0))"
proof -
  have "35 * nat position + 35 \<le> length (leds s)"
    using assms by (simp add: NUM_LEDS_def)
  then show ?thesis
    using assms numberMap_row(1) [of v]
    by (simp add: setClockSegment_eq digitMap_nth renderDigit_nth glyph_def)
qed

text \<open>Digit 7 at position 3 of the blank strip: offsets 0 and 14 are lit, 15 and 34 are not.\<close>

theorem setClockSegment_lights_glyph_witness:
  "\<exists>s'. setClockSegment 3 7 boot = Inr s'
      \<and> leds s' ! 105 = CRGBW 0 0 0 255 \<and> leds s' ! 119 = CRGBW 0 0 0 255
      \<and> leds s' ! 120 = CRGBW 0 0 0 0 \<and> leds s' ! 139 = CRGBW 0 0 0 0"
proof -
  obtain s' where s: "setClockSegment 3 7 boot = Inr s'"
    and px: "\<And>i. 105 \<le> i \<Longrightarrow> i < 140 \<Longrightarrow>
               leds s' ! i = (if int (i - 105) \<in> set (numberMap ! 7) then CRGBW 0 0 0 255 else CRGBW 0 0 0 0)"
    using setClockSegment_lights_glyph [of 3 7 boot]
    by (auto simp: boot_def NUM_LEDS_def digitMap_def)
  show ?thesis
    using s px [of 105] px [of 119] px [of 120] px [of 139] by (simp add: numberMap_def)
qed

text \<open>
  C8: for every position 0-5, value 0-9 and starting buffer, a second call of
  \<open>setClockSegment\<close> with the same arguments leaves the pixel buffer as the first call
  left it.
\<close>

theorem setClockSegment_idempotent:
  assumes "0 \<le> position" "position \<le> 5" "0 \<le> v" "v \<le> 9" "length (leds s) = NUM_LEDS"
  shows "\<exists>s1 s2. setClockSegment position v s = Inr s1 \<and> setClockSegment position v s1 = Inr s2
           \<and> leds s2 = leds s1"
  using assms by (simp add: setClockSegment_eq renderDigit_idem)

theorem setClockSegment_idempotent_witness:
  "\<exists>s1 s2. setClockSegment 0 8 boot = Inr s1 \<and> setClockSegment 0 8 s1 = Inr s2 \<and> leds s2 = leds s1"
  using setClockSegment_idempotent [of 0 8 boot] by (simp add: boot_def)

text \<open>
  C9: for every position 0-5 and value 0-9, \<open>setClockSegment\<close> leaves every pixel outside
  the range from \<open>digitMap[position]\<close> up to \<open>digitMap[position + 1]\<close> as it was, and the
  buffer keeps its length.
\<close>

theorem setClockSegment_frame:
  assumes "0 \<le> position" "position \<le> 5" "0 \<le> v" "v \<le> 9" "length (leds s) = NUM_LEDS"
  shows "\<exists>s'. setClockSegment position v s = Inr s' \<and> length (leds s') = length (leds s)
           \<and> (\<forall>i < NUM_LEDS. \<not> (unat (digitMap ! nat position) \<le> i \<and> i < unat (digitMap ! nat (position + 1))) \<longrightarrow>
                  leds s' ! i = leds s ! i)"
  using assms by (simp add: setClockSegment_eq digitMap_nth renderDigit_nth)

text \<open>Pixels 69 and 105, on either side of position 2, keep their colours.\<close>

theorem setClockSegment_frame_witness:
  "\<exists>s'. setClockSegment 2 4 (boot\<lparr> leds := (leds boot)[69 := CRGBW 1 2 3 4, 105 := CRGBW 5 6 7 8] \<rparr>) = Inr s'
      \<and> length (leds s') = NUM_LEDS \<and> leds s' ! 69 = CRGBW 1 2 3 4 \<and> leds s' ! 105 = CRGBW 5 6 7 8"
proof -
  let ?s = "boot\<lparr> leds := (leds boot)[69 := CRGBW 1 2 3 4, 105 := CRGBW 5 6 7 8] \<rparr>"
  obtain s' where s: "setClockSegment 2 4 ?s = Inr s'" and len: "length (leds s') = length (leds ?s)"
    and fr: "\<And>i. i < NUM_LEDS \<Longrightarrow> \<not> (70 \<le> i \<and> i < 105) \<Longrightarrow> leds s' ! i = leds ?s ! i"
    using setClockSegment_frame [of 2 4 ?s]
    by (auto simp: boot_def NUM_LEDS_def digitMap_def)
  show ?thesis
    using s len fr [of 69] fr [of 105] by (simp add: boot_def NUM_LEDS_def)
qed

section \<open>Digits of a time\<close>

lemma unitsDigit_nonneg:
  assumes "0 \<le> x"
  shows "unitsDigit x = x mod 10"
  using assms by (cases "x = 0") (simp_all add: unitsDigit_def smod_int_alt_def sgn_if)

lemma unitsDigit_range:
  assumes "0 \<le> x"
  shows "0 \<le> unitsDigit x" and "unitsDigit x \<le> 9"
  using assms by (simp_all add: unitsDigit_nonneg)

lemma tensDigit_range: "0 \<le> tensDigit x" "tensDigit x \<le> 9"
  by (simp_all add: tensDigit_def)

lemma tensDigit_small:
  assumes "0 \<le> x" "x < 2 ^ 32"
  shows "tensDigit x = (x div 10) mod 10"
  using assms by (simp add: tensDigit_def)

section \<open>One tick\<close>

lemma setClockTime_same_minute:
  assumes "uint (oldMinute s) = minute" "0 \<le> second" "length (leds s) = NUM_LEDS"
  shows "setClockTime hour minute second s =
           Inr (s\<lparr> leds := renderDigit 1 (tensDigit second) (renderDigit 0 (unitsDigit second) (leds s)),
                    showCount := showCount s + 70,
                    rendered := rendered s @ [(0, unitsDigit second), (1, tensDigit second)] \<rparr>)"
  using assms
  by (simp add: setClockTime_def setClockSegment_eq unitsDigit_range tensDigit_range)

lemma setClockTime_same_hour:
  assumes "uint (oldMinute s) \<noteq> minute" "uint (oldHour s) = hour"
    and "0 \<le> second" "0 \<le> minute" "length (leds s) = NUM_LEDS"
  shows "setClockTime hour minute second s =
           Inr (s\<lparr> leds := renderDigit 3 (tensDigit minute) (renderDigit 2 (unitsDigit minute)
                              (renderDigit 1 (tensDigit second) (renderDigit 0 (unitsDigit second) (leds s)))),
                    oldMinute := word_of_int minute,
                    showCount := showCount s + 140,
                    rendered := rendered s @ [(0, unitsDigit second), (1, tensDigit second),
                                              (2, unitsDigit minute), (3, tensDigit minute)],
                    trackerWrites := trackerWrites s @
                      [(OldMinute,
                        rendered s @ [(0, unitsDigit second), (1, tensDigit second),
                                      (2, unitsDigit minute), (3, tensDigit minute)],
                        showCount s + 140)] \<rparr>)"
  using assms
  by (simp add: setClockTime_def setClockSegment_eq unitsDigit_range tensDigit_range
        delay_def set_oldMinute_def)

lemma setClockTime_full:
  assumes "uint (oldMinute s) \<noteq> minute" "uint (oldHour s) \<noteq> hour"
    and "0 \<le> second" "0 \<le> minute" "0 \<le> hour" "length (leds s) = NUM_LEDS"
  shows "setClockTime hour minute second s =
           Inr (s\<lparr> leds := renderDigit 5 (tensDigit hour) (renderDigit 4 (unitsDigit hour)
                              (renderDigit 3 (tensDigit minute) (renderDigit 2 (unitsDigit minute)
                              (renderDigit 1 (tensDigit second) (renderDigit 0 (unitsDigit second) (leds s)))))),
                    oldHour := word_of_int hour,
                    oldMinute := word_of_int minute,
                    showCount := showCount s + 210,
                    rendered := rendered s @ [(0, unitsDigit second), (1, tensDigit second),
                                              (2, unitsDigit minute), (3, tensDigit minute),
                                              (4, unitsDigit hour), (5, tensDigit hour)],
                    trackerWrites := trackerWrites s @
                      [(OldMinute,
                        rendered s @ [(0, unitsDigit second), (1, tensDigit second),
                                      (2, unitsDigit minute), (3, tensDigit minute),
                                      (4, unitsDigit hour), (5, tensDigit hour)],
                        showCount s + 210),
                       (OldHour,
                        rendered s @ [(0, unitsDigit second), (1, tensDigit second),
                                      (2, unitsDigit minute), (3, tensDigit minute),
                                      (4, unitsDigit hour), (5, tensDigit hour)],
                        showCount s + 210)] \<rparr>)"
  using assms
  by (simp add: setClockTime_def setClockSegment_eq unitsDigit_range tensDigit_range
        delay_def set_oldMinute_def set_oldHour_def)

lemma setClockTime_trackers:
  assumes "0 \<le> hour" "0 \<le> minute" "0 \<le> second" "length (leds s) = NUM_LEDS"
  shows "\<exists>s'. setClockTime hour minute second s = Inr s' \<and> length (leds s') = NUM_LEDS
           \<and> oldMinute s' = word_of_int minute
           \<and> oldHour s' = (if uint (oldMinute s) = minute then oldHour s else word_of_int hour)"
proof (cases "uint (oldMinute s) = minute")
  case True
  then have "word_of_int minute = oldMinute s" by auto
  with True assms show ?thesis by (simp add: setClockTime_same_minute)
next
  case False
  show ?thesis
  proof (cases "uint (oldHour s) = hour")
    case True
    then have "word_of_int hour = oldHour s" by auto
    with True False assms show ?thesis by (simp add: setClockTime_same_hour)
  next
    case False
    with \<open>uint (oldMinute s) \<noteq> minute\<close> assms show ?thesis by (simp add: setClockTime_full)
  qed
qed

lemma setClockTime_digits:
  assumes "0 \<le> hour" "hour < 2 ^ 32" "0 \<le> minute" "minute < 2 ^ 32" "0 \<le> second" "second < 2 ^ 32"
    and "length (leds s) = NUM_LEDS" "uint (oldMinute s) \<noteq> minute" "uint (oldHour s) \<noteq> hour"
  shows "\<exists>s'. setClockTime hour minute second s = Inr s'
           \<and> rendered s' = rendered s @ zip [0, 1, 2, 3, 4, 5] (decompose hour minute second)"
  using assms
  by (simp add: setClockTime_full decompose_def unitsDigit_nonneg tensDigit_small)

section \<open>Start-up\<close>

declare colorFillLoop.simps [simp del]

lemma Black_not_White: "Black \<noteq> White"
  by (simp add: Black_def White_def)

lemma CRGBW_of_Black: "CRGBW_of_CRGB Black = CRGBW 0 0 0 0"
  by (simp add: Black_def)

lemma colorFillLoop_Black:
  "n = NUM_LEDS - i \<Longrightarrow> i \<le> NUM_LEDS \<Longrightarrow> length (leds s) = NUM_LEDS \<Longrightarrow>
   colorFillLoop Black speed i s =
     s\<lparr> leds := take i (leds s) @ replicate n (CRGBW 0 0 0 0), showCount := showCount s + n \<rparr>"
proof (induction n arbitrary: i s)
  case 0
  then have "\<not> i < NUM_LEDS" by simp
  then have "colorFillLoop Black speed i s = s"
    by (simp add: colorFillLoop.simps [of Black speed i s])
  with 0 show ?case by simp
next
  case (Suc n)
  then have i: "i < NUM_LEDS" "i < length (leds s)" by simp_all
  let ?s1 = "s\<lparr> leds := (leds s)[i := CRGBW 0 0 0 0], showCount := showCount s + 1 \<rparr>"
  have "colorFillLoop Black speed i s = colorFillLoop Black speed (i + 1) ?s1"
    using i by (simp add: colorFillLoop.simps [of Black speed i s] Black_not_White CRGBW_of_Black)
  also have "\<dots> = ?s1\<lparr> leds := take (Suc i) (leds ?s1) @ replicate n (CRGBW 0 0 0 0),
                        showCount := showCount ?s1 + n \<rparr>"
    using Suc.IH [of "Suc i" ?s1] Suc.prems by simp
  also have "take (Suc i) (leds ?s1) @ replicate n (CRGBW 0 0 0 0)
               = take i (leds s) @ replicate (Suc n) (CRGBW 0 0 0 0)"
    using i by (simp add: take_Suc_conv_app_nth)
  finally show ?case by simp
qed

lemma setClockTime_test_step:
  assumes "length (leds s) = NUM_LEDS" "oldMinute s \<noteq> word_of_int k" "0 \<le> k"
  shows "\<exists>s'. setClockTime k k k s = Inr s' \<and> length (leds s') = NUM_LEDS
           \<and> oldMinute s' = word_of_int k \<and> oldHour s' = word_of_int k"
proof -
  from assms(2) have "uint (oldMinute s) \<noteq> k" by auto
  with setClockTime_trackers [of k k k s] assms show ?thesis by auto
qed

lemma pixelTest_eq:
  assumes "length (leds s) = NUM_LEDS"
  shows "\<exists>s'. pixelTest s = Inr s' \<and> oldHour s' = 99 \<and> oldMinute s' = 99
           \<and> leds s' = replicate NUM_LEDS (CRGBW 0 0 0 0)"
proof -
  from setClockTime_trackers [of 0 0 0 s] assms
  obtain s0 where s0: "setClockTime 0 0 0 s = Inr s0" "length (leds s0) = NUM_LEDS" "oldMinute s0 = 0"
    by auto
  from setClockTime_test_step [of s0 11] s0
  obtain s1 where s1: "setClockTime 11 11 11 s0 = Inr s1" "length (leds s1) = NUM_LEDS"
    "oldMinute s1 = 11" "oldHour s1 = 11" by auto
  from setClockTime_test_step [of s1 22] s1
  obtain s2 where s2: "setClockTime 22 22 22 s1 = Inr s2" "length (leds s2) = NUM_LEDS"
    "oldMinute s2 = 22" "oldHour s2 = 22" by auto
  from setClockTime_test_step [of s2 33] s2
  obtain s3 where s3: "setClockTime 33 33 33 s2 = Inr s3" "length (leds s3) = NUM_LEDS"
    "oldMinute s3 = 33" "oldHour s3 = 33" by auto
  from setClockTime_test_step [of s3 44] s3
  obtain s4 where s4: "setClockTime 44 44 44 s3 = Inr s4" "length (leds s4) = NUM_LEDS"
    "oldMinute s4 = 44" "oldHour s4 = 44" by auto
  from setClockTime_test_step [of s4 55] s4
  obtain s5 where s5: "setClockTime 55 55 55 s4 = Inr s5" "length (leds s5) = NUM_LEDS"
    "oldMinute s5 = 55" "oldHour s5 = 55" by auto
  from setClockTime_test_step [of s5 66] s5
  obtain s6 where s6: "setClockTime 66 66 66 s5 = Inr s6" "length (leds s6) = NUM_LEDS"
    "oldMinute s6 = 66" "oldHour s6 = 66" by auto
  from setClockTime_test_step [of s6 77] s6
  obtain s7 where s7: "setClockTime 77 77 77 s6 = Inr s7" "length (leds s7) = NUM_LEDS"
    "oldMinute s7 = 77" "oldHour s7 = 77" by auto
  from setClockTime_test_step [of s7 88] s7
  obtain s8 where s8: "setClockTime 88 88 88 s7 = Inr s8" "length (leds s8) = NUM_LEDS"
    "oldMinute s8 = 88" "oldHour s8 = 88" by auto
  from setClockTime_test_step [of s8 99] s8
  obtain s9 where s9: "setClockTime 99 99 99 s8 = Inr s9" "length (leds s9) = NUM_LEDS"
    "oldMinute s9 = 99" "oldHour s9 = 99" by auto
  have "pixelTest s = Inr (colorFillLoop Black 1 0 s9)"
    by (simp add: pixelTest_def delay_def colorFill_def s0(1) s1(1) s2(1) s3(1) s4(1) s5(1)
          s6(1) s7(1) s8(1) s9(1))
  then show ?thesis
    using s9 by (simp add: colorFillLoop_Black [OF refl])
qed

lemma six_digits_nth:
  assumes len: "length L = NUM_LEDS" and p: "p < 6" and off: "off < 35"
  shows "renderDigit 5 d5 (renderDigit 4 d4 (renderDigit 3 d3 (renderDigit 2 d2
           (renderDigit 1 d1 (renderDigit 0 d0 L))))) ! (35 * p + off)
         = glyph (numberMap ! nat ([d0, d1, d2, d3, d4, d5] ! p)) off"
proof -
  from p consider "p = 0" | "p = 1" | "p = 2" | "p = 3" | "p = 4" | "p = 5" by arith
  then show ?thesis
    using len off by cases (simp_all add: renderDigit_nth NUM_LEDS_def)
qed

section \<open>Messages\<close>

lemma String_of_terminated:
  assumes "CHR 0x00 \<notin> set m"
  shows "String_of_buffer (m @ [CHR 0x00]) = Inr m"
proof -
  have "takeWhile (\<lambda>c. c \<noteq> CHR 0x00) (m @ [CHR 0x00]) = m"
    using assms by (induction m) auto
  then show ?thesis by (simp add: String_of_buffer_def)
qed

lemma callback_restores_terminated:
  assumes "CHR 0x00 \<notin> set m" "CHR 0x00 \<notin> set off" "off \<noteq> ''true''"
  shows "\<exists>s1 s2 s3.
           callback toInt ''LEDClock/Brightness'' (m @ [CHR 0x00]) s = Inr s1
         \<and> callback toInt ''LEDClock/State'' (off @ [CHR 0x00]) s1 = Inr s2
         \<and> callback toInt ''LEDClock/State'' (''true'' @ [CHR 0x00]) s2 = Inr s3
         \<and> FastLED_brightness s1 = word_of_int (toInt m)
         \<and> FastLED_brightness s2 = 0 \<and> brightness s2 = 0
         \<and> FastLED_brightness s3 = FastLED_brightness s1 \<and> brightness s3 = brightness s1"
proof -
  have t: "String_of_buffer [CHR ''t'', CHR ''r'', CHR ''u'', CHR ''e'', CHR 0x00] = Inr ''true''"
    by (simp add: String_of_buffer_def)
  show ?thesis
    using assms by (simp add: callback_def String_of_terminated t Let_def)
qed

section \<open>Ticks, flushes, trackers, brightness and start-up\<close>

text \<open>
  C2, as stated, fails: the three comparisons are nested, not independent. With the minute
  unchanged the first branch is taken whatever the hour is. Here the trackers hold 10:30,
  the call is for 11:30:00, and only positions 0 and 1 are redrawn although the hour
  differs from \<open>oldHour\<close>.
\<close>

theorem hour_not_redrawn_counterexample:
  "uint (oldHour (boot\<lparr> oldHour := 10, oldMinute := 30 \<rparr>)) \<noteq> 11
     \<and> map_sum id (map fst \<circ> rendered) (setClockTime 11 30 0 (boot\<lparr> oldHour := 10, oldMinute := 30 \<rparr>))
         = Inr [0, 1]"
  by (simp add: setClockTime_same_minute boot_def)

text \<open>
  C2, amended: for every call of \<open>setClockTime\<close> with non-negative arguments and every
  prior tracker state, the two seconds positions are always redrawn; the two minute
  positions are redrawn if and only if \<open>minute\<close> differs from \<open>oldMinute\<close>; the two hour
  positions are redrawn if and only if \<open>minute\<close> differs from \<open>oldMinute\<close> and \<open>hour\<close>
  differs from \<open>oldHour\<close>. \<open>new\<close> is what the call appends to the log of rendered
  segments.
\<close>

theorem setClockTime_redraw_cascade:
  assumes "0 \<le> hour" "0 \<le> minute" "0 \<le> second" "length (leds s) = NUM_LEDS"
  shows "\<exists>s'. setClockTime hour minute second s = Inr s'
           \<and> (\<exists>new. rendered s' = rendered s @ new
                \<and> map fst new =
                    [0, 1] @ (if minute \<noteq> uint (oldMinute s)
                              then [2, 3] @ (if hour \<noteq> uint (oldHour s) then [4, 5] else [])
                              else []))"
proof (cases "uint (oldMinute s) = minute")
  case True
  with assms show ?thesis by (auto simp: setClockTime_same_minute)
next
  case False
  then show ?thesis using assms
    by (cases "uint (oldHour s) = hour") (auto simp: setClockTime_same_hour setClockTime_full)
qed

text \<open>From 10:12 to 10:13:00: seconds and minutes are redrawn, the hour is not.\<close>

theorem setClockTime_redraw_cascade_witness:
  "\<exists>s'. setClockTime 10 13 0 (boot\<lparr> oldHour := 10, oldMinute := 12 \<rparr>) = Inr s'
      \<and> map fst (rendered s') = [0, 1, 2, 3]"
  using setClockTime_redraw_cascade [of 10 13 0 "boot\<lparr> oldHour := 10, oldMinute := 12 \<rparr>"]
  by (auto simp: boot_def)

text \<open>
  C3, as stated, fails: \<open>controlPixel\<close> calls \<open>FastLED.show()\<close> after every pixel it
  stores, so rendering the digit 0 at position 0 from the initial state pushes the buffer
  to the strip 35 times.
\<close>

theorem setClockSegment_flushes_counterexample:
  "showCount boot = 0 \<and> map_sum id showCount (setClockSegment 0 0 boot) = Inr 35"
  by (simp add: setClockSegment_eq boot_def)

text \<open>
  C3, amended: rendering a digit pushes the buffer to the strip once per pixel written,
  35 times for each call of \<open>setClockSegment\<close> with a position 0-5 and a value 0-9; one
  call of \<open>setClockTime\<close> renders at least two digits and pushes 35 times for each digit
  it renders.
\<close>

theorem flush_per_pixel:
  assumes "0 \<le> position" "position \<le> 5" "0 \<le> v" "v \<le> 9"
    and "0 \<le> hour" "0 \<le> minute" "0 \<le> second" "length (leds s) = NUM_LEDS"
  shows "(\<exists>s'. setClockSegment position v s = Inr s' \<and> showCount s' = showCount s + 35)
       \<and> (\<exists>s'. setClockTime hour minute second s = Inr s'
             \<and> showCount s' = showCount s + 35 * (length (rendered s') - length (rendered s))
             \<and> 2 \<le> length (rendered s') - length (rendered s))"
proof
  show "\<exists>s'. setClockSegment position v s = Inr s' \<and> showCount s' = showCount s + 35"
    using assms by (simp add: setClockSegment_eq)
  show "\<exists>s'. setClockTime hour minute second s = Inr s'
             \<and> showCount s' = showCount s + 35 * (length (rendered s') - length (rendered s))
             \<and> 2 \<le> length (rendered s') - length (rendered s)"
  proof (cases "uint (oldMinute s) = minute")
    case True
    with assms show ?thesis by (simp add: setClockTime_same_minute)
  next
    case False
    then show ?thesis using assms
      by (cases "uint (oldHour s) = hour") (simp_all add: setClockTime_same_hour setClockTime_full)
  qed
qed

theorem flush_per_pixel_witness:
  "(\<exists>s'. setClockSegment 5 2 boot = Inr s' \<and> showCount s' = 35)
     \<and> (\<exists>s'. setClockTime 12 34 56 boot = Inr s' \<and> showCount s' = 210 \<and> length (rendered s') = 6)"
proof -
  have "length (leds boot) = NUM_LEDS" by (simp add: boot_def)
  from flush_per_pixel [of 5 2 12 34 56 boot, OF _ _ _ _ _ _ _ this]
  have a: "\<exists>s'. setClockSegment 5 2 boot = Inr s' \<and> showCount s' = showCount boot + 35"
    and b: "\<exists>s'. setClockTime 12 34 56 boot = Inr s'
             \<and> showCount s' = showCount boot + 35 * (length (rendered s') - length (rendered boot))
             \<and> 2 \<le> length (rendered s') - length (rendered boot)"
    by simp_all
  have c: "setClockTime 12 34 56 boot = Inr s' \<Longrightarrow> length (rendered s') = 6" for s'
    by (auto simp: setClockTime_full boot_def)
  from a b c show ?thesis by (auto simp: boot_def)
qed

text \<open>
  C4, as stated, fails: with the minute unchanged no tracker is written, so \<open>oldHour\<close>
  keeps a value different from \<open>hour\<close>. Here the trackers hold 20:00 and the call is for
  14:00:30.
\<close>

theorem oldHour_stale_counterexample:
  "map_sum id (uint \<circ> oldHour) (setClockTime 14 0 30 (boot\<lparr> oldHour := 20, oldMinute := 0 \<rparr>)) = Inr 20"
  by (simp add: setClockTime_same_minute boot_def)

text \<open>
  C4, amended: after every call of \<open>setClockTime\<close> with \<open>hour\<close> and \<open>minute\<close> in 0..255
  and a non-negative \<open>second\<close>, \<open>oldMinute\<close> equals \<open>minute\<close>; \<open>oldHour\<close> equals \<open>hour\<close>
  if \<open>minute\<close> differed from the prior \<open>oldMinute\<close>, and keeps its prior value otherwise.
  Each tracker is assigned at most once in the call, and only after all the segments of
  the call, those of its own digit pair among them, were rendered and pushed to the
  strip: with the minute unchanged no tracker is assigned; with the minute changed and
  the hour unchanged \<open>oldMinute\<close> alone is assigned, after positions 0 to 3; with both
  changed \<open>oldMinute\<close> and then \<open>oldHour\<close> are assigned, after positions 0 to 5. \<open>new\<close>
  is what the call appends to the log of rendered segments, with 35 pushes for each; every
  assignment of the call is logged with the log and the count of pushes as they are at
  the end of the call.
\<close>

theorem setClockTime_updates_trackers:
  assumes "0 \<le> hour" "hour < 256" "0 \<le> minute" "minute < 256" "0 \<le> second"
    and "length (leds s) = NUM_LEDS"
  shows "\<exists>s'. setClockTime hour minute second s = Inr s'
           \<and> uint (oldMinute s') = minute
           \<and> uint (oldHour s') = (if uint (oldMinute s) = minute then uint (oldHour s) else hour)
           \<and> (\<exists>new. rendered s' = rendered s @ new
                \<and> showCount s' = showCount s + 35 * length new
                \<and> map fst new =
                    [0, 1] @ (if minute \<noteq> uint (oldMinute s)
                              then [2, 3] @ (if hour \<noteq> uint (oldHour s) then [4, 5] else [])
                              else []))
           \<and> trackerWrites s' =
               trackerWrites s @
                 map (\<lambda>t. (t, rendered s', showCount s'))
                   (if uint (oldMinute s) = minute then []
                    else if uint (oldHour s) = hour then [OldMinute]
                    else [OldMinute, OldHour])"
proof -
  have m: "uint (word_of_int minute :: 8 word) = minute"
    and h: "uint (word_of_int hour :: 8 word) = hour"
    using assms by (simp_all add: uint_word_of_int)
  show ?thesis
  proof (cases "uint (oldMinute s) = minute")
    case True
    with assms show ?thesis by (simp add: setClockTime_same_minute)
  next
    case False
    show ?thesis
    proof (cases "uint (oldHour s) = hour")
      case True
      with False assms m show ?thesis by (simp add: setClockTime_same_hour)
    next
      case False
      with \<open>uint (oldMinute s) \<noteq> minute\<close> assms m h show ?thesis
        by (simp add: setClockTime_full)
    qed
  qed
qed

text \<open>
  From 10:59 to 11:00:00 both trackers are assigned, \<open>oldMinute\<close> first, after the six
  segments and their 210 pushes.
\<close>

theorem setClockTime_updates_trackers_witness:
  "\<exists>s'. setClockTime 11 0 0 (boot\<lparr> oldHour := 10, oldMinute := 59 \<rparr>) = Inr s'
      \<and> uint (oldMinute s') = 0 \<and> uint (oldHour s') = 11
      \<and> map fst (rendered s') = [0, 1, 2, 3, 4, 5]
      \<and> trackerWrites s' = [(OldMinute, rendered s', 210), (OldHour, rendered s', 210)]"
  using setClockTime_updates_trackers [of 11 0 0 "boot\<lparr> oldHour := 10, oldMinute := 59 \<rparr>"]
  by (auto simp: boot_def)

text \<open>
  C5: the claim asks for the digits of the second at positions 0 and 1, of the minute at
  positions 2 and 3, of the hour at positions 4 and 5; for 23:59:09 these are 9, 0, 9, 5,
  3, 2. \<open>setClockTime\<close> of ClockDriver.ino does so (lemma \<open>setClockTime_digits\<close>). The
  earlier sketch computes all six digits from \<open>second\<close> and renders 9, 0, 9, 0, 9, 0.
\<close>

theorem setClockTime_rtc_digits_from_second:
  "map snd (setClockTime_rtc 23 59 9) = [9, 0, 9, 0, 9, 0]
     \<and> decompose 23 59 9 = [9, 0, 9, 5, 3, 2]"
  by (simp add: setClockTime_rtc_def decompose_def unitsDigit_nonneg tensDigit_small)

text \<open>
  C6: the claim asks that brightness b, then State off, then State on leaves the
  brightness at b. The handlers save and restore \<open>oldBrightness\<close> to that end, and with
  payloads that carry their own terminating NUL the sequence does restore b (lemma
  \<open>callback_restores_terminated\<close>). A payload as it is received, the four bytes of
  "true" say, has no NUL: \<open>callback\<close> copies it into a buffer of exactly four bytes and
  builds the \<open>String\<close> by reading past the end of that buffer, so neither the message
  "true" nor any brightness value is read reliably, and the sequence of the claim already
  fails at its first message.
\<close>

theorem callback_reads_past_buffer:
  "callback toInt ''LEDClock/State'' ''true'' s = Inl (ReadOutside ''buffer'')
     \<and> block [callback toInt ''LEDClock/Brightness'' ''200'',
               callback toInt ''LEDClock/State'' ''false'',
               callback toInt ''LEDClock/State'' ''true''] s = Inl (ReadOutside ''buffer'')"
  by (simp add: callback_def String_of_buffer_def)




text \<open>
  C10: from any state of the globals, \<open>pixelTest\<close> ends with \<open>oldHour = 99\<close>,
  \<open>oldMinute = 99\<close> and every pixel black. The next \<open>setClockTime\<close> with an hour in
  0..23, a minute in 0..59 and a second in 0..59 renders all six positions, and
  afterwards each position shows the glyph of its digit.
\<close>

theorem pixelTest_then_full_redraw:
  assumes "length (leds s) = NUM_LEDS"
    and "0 \<le> hour" "hour \<le> 23" "0 \<le> minute" "minute \<le> 59" "0 \<le> second" "second \<le> 59"
  shows "\<exists>s1 s2. pixelTest s = Inr s1 \<and> oldHour s1 = 99 \<and> oldMinute s1 = 99
           \<and> leds s1 = replicate NUM_LEDS (CRGBW 0 0 0 0)
           \<and> setClockTime hour minute second s1 = Inr s2
           \<and> rendered s2 = rendered s1 @ zip [0, 1, 2, 3, 4, 5] (decompose hour minute second)
           \<and> (\<forall>p < 6. \<forall>off < 35. leds s2 ! (35 * p + off) =
                 (if int off \<in> set (numberMap ! nat (decompose hour minute second ! p))
                  then CRGBW 0 0 0 255 else CRGBW 0 0 0 0))"
proof -
  from pixelTest_eq [OF assms(1)]
  obtain s1 where s1: "pixelTest s = Inr s1" "oldHour s1 = 99" "oldMinute s1 = 99"
    "leds s1 = replicate NUM_LEDS (CRGBW 0 0 0 0)" by blast
  have len: "length (leds s1) = NUM_LEDS" using s1(4) by simp
  have ne: "uint (oldMinute s1) \<noteq> minute" "uint (oldHour s1) \<noteq> hour"
    using s1(2,3) assms by simp_all
  let ?L = "renderDigit 5 (tensDigit hour) (renderDigit 4 (unitsDigit hour)
              (renderDigit 3 (tensDigit minute) (renderDigit 2 (unitsDigit minute)
              (renderDigit 1 (tensDigit second) (renderDigit 0 (unitsDigit second) (leds s1))))))"
  let ?s2 = "s1\<lparr> leds := ?L, oldHour := word_of_int hour, oldMinute := word_of_int minute,
                  showCount := showCount s1 + 210,
                  rendered := rendered s1 @ [(0, unitsDigit second), (1, tensDigit second),
                                             (2, unitsDigit minute), (3, tensDigit minute),
                                             (4, unitsDigit hour), (5, tensDigit hour)],
                  trackerWrites := trackerWrites s1 @
                    [(OldMinute,
                      rendered s1 @ [(0, unitsDigit second), (1, tensDigit second),
                                     (2, unitsDigit minute), (3, tensDigit minute),
                                     (4, unitsDigit hour), (5, tensDigit hour)],
                      showCount s1 + 210),
                     (OldHour,
                      rendered s1 @ [(0, unitsDigit second), (1, tensDigit second),
                                     (2, unitsDigit minute), (3, tensDigit minute),
                                     (4, unitsDigit hour), (5, tensDigit hour)],
                      showCount s1 + 210)] \<rparr>"
  have s2: "setClockTime hour minute second s1 = Inr ?s2"
    using setClockTime_full [OF ne assms(6) assms(4) assms(2) len] .
  have dec: "[unitsDigit second, tensDigit second, unitsDigit minute, tensDigit minute,
              unitsDigit hour, tensDigit hour] = decompose hour minute second"
    using assms by (simp add: decompose_def unitsDigit_nonneg tensDigit_small)
  have r: "rendered ?s2 = rendered s1 @ zip [0, 1, 2, 3, 4, 5] (decompose hour minute second)"
    by (simp add: dec [symmetric])
  have px: "\<forall>p < 6. \<forall>off < 35. leds ?s2 ! (35 * p + off) =
                 (if int off \<in> set (numberMap ! nat (decompose hour minute second ! p))
                  then CRGBW 0 0 0 255 else CRGBW 0 0 0 0)"
    using six_digits_nth [OF len] by (simp add: dec glyph_def)
  from s1 s2 r px show ?thesis by blast
qed

text \<open>After start-up, 07:05:42 is drawn in full.\<close>

theorem pixelTest_then_full_redraw_witness:
  "\<exists>s1 s2. pixelTest boot = Inr s1 \<and> oldHour s1 = 99 \<and> oldMinute s1 = 99
      \<and> setClockTime 7 5 42 s1 = Inr s2
      \<and> map fst (rendered s2) = map fst (rendered s1) @ [0, 1, 2, 3, 4, 5]
      \<and> leds s2 ! 0 = CRGBW 0 0 0 0 \<and> leds s2 ! 5 = CRGBW 0 0 0 255
      \<and> leds s2 ! 209 = CRGBW 0 0 0 255"
proof -
  have "length (leds boot) = NUM_LEDS" by (simp add: boot_def)
  from pixelTest_then_full_redraw [of boot 7 5 42, OF this]
  obtain s1 s2 where a: "pixelTest boot = Inr s1" "oldHour s1 = 99" "oldMinute s1 = 99"
    "setClockTime 7 5 42 s1 = Inr s2"
    "rendered s2 = rendered s1 @ zip [0, 1, 2, 3, 4, 5] (decompose 7 5 42)"
    and px: "\<forall>p < 6. \<forall>off < 35. leds s2 ! (35 * p + off) =
                 (if int off \<in> set (numberMap ! nat (decompose 7 5 42 ! p))
                  then CRGBW 0 0 0 255 else CRGBW 0 0 0 0)"
    by auto
  from px [rule_format, of 0 0] px [rule_format, of 0 5] px [rule_format, of 5 34]
  have "leds s2 ! 0 = CRGBW 0 0 0 0" "leds s2 ! 5 = CRGBW 0 0 0 255" "leds s2 ! 209 = CRGBW 0 0 0 255"
    by (simp_all add: decompose_def numberMap_def)
  with a show ?thesis by (auto simp: decompose_def)
qed

end
